theory Spec2Isabelle
  imports Complex_Main
begin

section \<open>Dividend options on a finite-difference grid\<close>

text \<open>
  A shallow embedding of \<^verbatim>\<open>dividendoption.cpp\<close> (QuantLib, namespace Pricers): the
  constructor of \<^verbatim>\<open>DividendOption\<close>, \<^verbatim>\<open>executeIntermediateStep\<close> and
  \<^verbatim>\<open>movePricesBeforeExDiv\<close>.

  In the transfer and in the step a C++ \<^verbatim>\<open>double\<close> is idealised as a real number:
  rounding is not part of the model there, and "within tolerance" reads as equality. In
  the constructor, whose check compares the underlying with a sum accumulated in double
  arithmetic, every arithmetic result is rounded to the nearest binary64 number.
  \<^verbatim>\<open>QL_LOG\<close> is the natural logarithm.
  An \<^verbatim>\<open>Array\<close> and a \<^verbatim>\<open>std::vector\<close> of doubles are lists of reals. Their
  \<^verbatim>\<open>operator[]\<close> is unchecked in C++, where an access outside the container is
  undefined behaviour; the model makes every such access the failure
  \<open>IndexOutOfRange\<close>, so that no result depends on an unspecified value.
  A failed \<^verbatim>\<open>QL_REQUIRE\<close> throws; the model returns the error on the left of a sum.
  Members of the class carry the suffix \<open>_m\<close> where the source has a trailing underscore.
\<close>

subsection \<open>Errors and arrays\<close>

datatype cause =
    CountMismatch nat nat
  | DividendsExceedUnderlying real real

datatype error =
    ConfigurationError cause
  | DegenerateGridError
  | IndexOutOfRange

type_synonym Array = "real list"

subsection \<open>The cubic spline\<close>

text \<open>
  \<^verbatim>\<open>ql/Math/cubicspline.hpp\<close> is not among the sources. A spline object is represented by
  the abscissae and ordinates it was built from.
\<close>

record CubicSpline =
  knots :: Array
  ordinates :: Array

text \<open>
  Modelled from the spec: the constructor of \<^verbatim>\<open>CubicSpline\<close> (absent from the sources)
  fails with \<open>DegenerateGridError\<close> if it is given fewer than 2 points, and otherwise
  builds the spline over the points.
\<close>

definition newCubicSpline :: "Array \<Rightarrow> Array \<Rightarrow> error + CubicSpline" where
  "newCubicSpline xs ys =
     (if length xs < 2 then Inl DegenerateGridError
      else Inr \<lparr>knots = xs, ordinates = ys\<rparr>)"

text \<open>
  The value of a spline at a point, \<^verbatim>\<open>CubicSpline::operator()\<close>, is a parameter \<open>ev\<close> of
  the transfer below: the theorems hold for every evaluation function, and those that
  need the spline to pass through its points say so with \<open>interpolating\<close>: a spline
  over at least 2 strictly increasing abscissae takes at each of them its ordinate.
\<close>

definition interpolating :: "(CubicSpline \<Rightarrow> real \<Rightarrow> real) \<Rightarrow> bool" where
  "interpolating ev \<longleftrightarrow>
     (\<forall>sp i. sorted_wrt (<) (knots sp) \<and> 2 \<le> length (knots sp)
               \<and> length (ordinates sp) = length (knots sp) \<and> i < length (knots sp)
        \<longrightarrow> ev sp (knots sp ! i) = ordinates sp ! i)"

text \<open>
  An evaluation function that returns the point it is asked for: run with it, the
  transfer returns the points at which it evaluates the spline.
\<close>

definition evaluationPoint :: "CubicSpline \<Rightarrow> real \<Rightarrow> real" where
  "evaluationPoint sp x = x"

text \<open>
  Modelled from the spec: an interpolating cubic spline solved as a tridiagonal system
  (\<^verbatim>\<open>CubicSpline\<close> is absent from the sources). This one is the natural spline, whose
  second derivative vanishes at both ends; it is the instance at which the theorems
  about an arbitrary evaluation function are applied.
\<close>

fun locate :: "Array \<Rightarrow> real \<Rightarrow> nat" where
  "locate (a # b # c # xs) x = (if x < b then 0 else Suc (locate (b # c # xs) x))"
| "locate xs x = 0"

fun forwardSweep :: "Array \<Rightarrow> Array \<Rightarrow> nat \<Rightarrow> nat \<Rightarrow> real \<Rightarrow> real \<Rightarrow> (real \<times> real) list" where
  "forwardSweep xs ys i 0 c u = []"
| "forwardSweep xs ys i (Suc m) c u =
     (let sig = (xs ! i - xs ! (i - 1)) / (xs ! (i + 1) - xs ! (i - 1));
          p = sig * c + 2;
          c' = (sig - 1) / p;
          slopes = (ys ! (i + 1) - ys ! i) / (xs ! (i + 1) - xs ! i)
                 - (ys ! i - ys ! (i - 1)) / (xs ! i - xs ! (i - 1));
          u' = (6 * slopes / (xs ! (i + 1) - xs ! (i - 1)) - sig * u) / p
      in (c', u') # forwardSweep xs ys (Suc i) m c' u')"

definition secondDerivatives :: "Array \<Rightarrow> Array \<Rightarrow> Array" where
  "secondDerivatives xs ys =
     foldr (\<lambda>(c, u) d2. (c * hd d2 + u) # d2)
           ((0, 0) # forwardSweep xs ys 1 (length xs - 2) 0 0) [0]"

definition naturalSpline :: "CubicSpline \<Rightarrow> real \<Rightarrow> real" where
  "naturalSpline sp x =
     (let xs = knots sp; ys = ordinates sp;
          d2 = secondDerivatives xs ys;
          i = locate xs x;
          h = xs ! (i + 1) - xs ! i;
          a = (xs ! (i + 1) - x) / h;
          b = (x - xs ! i) / h
      in a * ys ! i + b * ys ! (i + 1)
         + ((a ^ 3 - a) * d2 ! i + (b ^ 3 - b) * d2 ! (i + 1)) * (h * h) / 6)"

subsection \<open>movePricesBeforeExDiv\<close>

text \<open>
  The first loop of \<^verbatim>\<open>movePricesBeforeExDiv\<close>: for \<open>j\<close> from 0 to \<open>gridSize - 1\<close> it
  reads \<open>prices[j]\<close> and \<open>oldGrid[j]\<close> and, when the grid value is positive, appends its
  logarithm to \<open>logOldGrid\<close> and the price to \<open>tmpPrices\<close>.
\<close>

function collectLogGrid ::
  "Array \<Rightarrow> Array \<Rightarrow> nat \<Rightarrow> nat \<Rightarrow> Array \<Rightarrow> Array \<Rightarrow> error + (Array \<times> Array)" where
  "collectLogGrid prices oldGrid gridSize j logOldGrid tmpPrices =
     (if j < gridSize then
        (if length prices \<le> j \<or> length oldGrid \<le> j then Inl IndexOutOfRange
         else if oldGrid ! j > 0
           then collectLogGrid prices oldGrid gridSize (Suc j)
                  (logOldGrid @ [ln (oldGrid ! j)]) (tmpPrices @ [prices ! j])
           else collectLogGrid prices oldGrid gridSize (Suc j) logOldGrid tmpPrices)
      else Inr (logOldGrid, tmpPrices))"
  by pat_completeness auto
termination
  by (relation "measure (\<lambda>(prices, oldGrid, gridSize, j, logOldGrid, tmpPrices). gridSize - j)")
     auto

declare collectLogGrid.simps [simp del]

text \<open>
  The index \<open>jGrid\<close> of the second loop: \<open>gridSize - 2\<close> when
  \<open>newGrid[j] >= oldGrid[gridSize-2]\<close>, and \<open>j\<close> otherwise.
\<close>

definition jGrid :: "Array \<Rightarrow> Array \<Rightarrow> nat \<Rightarrow> nat \<Rightarrow> nat" where
  "jGrid newGrid oldGrid gridSize j =
     (if newGrid ! j \<ge> oldGrid ! (gridSize - 2) then gridSize - 2 else j)"

text \<open>
  The second loop: for \<open>j\<close> from 0 to \<open>gridSize - 1\<close> it evaluates the spline at
  \<open>QL_LOG(newGrid[jGrid])\<close> and stores the value in \<open>prices[j]\<close>. The index
  \<open>gridSize - 2\<close> is negative for \<open>gridSize < 2\<close>.
\<close>

function evaluateOnNewGrid ::
  "(CubicSpline \<Rightarrow> real \<Rightarrow> real) \<Rightarrow> CubicSpline \<Rightarrow> Array \<Rightarrow> Array \<Rightarrow> nat \<Rightarrow> nat \<Rightarrow> Array
     \<Rightarrow> error + Array" where
  "evaluateOnNewGrid ev priceSpline newGrid oldGrid gridSize j prices =
     (if j < gridSize then
        (if gridSize < 2 \<or> length oldGrid \<le> gridSize - 2 \<or> length newGrid \<le> j
            \<or> length newGrid \<le> jGrid newGrid oldGrid gridSize j \<or> length prices \<le> j
         then Inl IndexOutOfRange
         else evaluateOnNewGrid ev priceSpline newGrid oldGrid gridSize (Suc j)
                (prices[j := ev priceSpline (ln (newGrid ! jGrid newGrid oldGrid gridSize j))]))
      else Inr prices)"
  by pat_completeness auto
termination
  by (relation "measure (\<lambda>(ev, priceSpline, newGrid, oldGrid, gridSize, j, prices). gridSize - j)")
     auto

declare evaluateOnNewGrid.simps [simp del]

text \<open>
  \<^verbatim>\<open>movePricesBeforeExDiv(Array& prices, const Array& newGrid, const Array& oldGrid)\<close>.
  The array \<open>prices\<close> is updated in place; the model returns its new contents.
\<close>

definition movePricesBeforeExDiv ::
  "(CubicSpline \<Rightarrow> real \<Rightarrow> real) \<Rightarrow> Array \<Rightarrow> Array \<Rightarrow> Array \<Rightarrow> error + Array" where
  "movePricesBeforeExDiv ev prices newGrid oldGrid =
     (let gridSize = length oldGrid in
      case collectLogGrid prices oldGrid gridSize 0 [] [] of
        Inl e \<Rightarrow> Inl e
      | Inr (logOldGrid, tmpPrices) \<Rightarrow>
          (case newCubicSpline logOldGrid tmpPrices of
             Inl e \<Rightarrow> Inl e
           | Inr priceSpline \<Rightarrow>
               evaluateOnNewGrid ev priceSpline newGrid oldGrid gridSize 0 prices))"

text \<open>
  The points of the old grid that the first loop keeps, as indices, and the spline that
  \<^verbatim>\<open>movePricesBeforeExDiv\<close> builds from them.
\<close>

definition positiveIndices :: "Array \<Rightarrow> nat \<Rightarrow> nat \<Rightarrow> nat list" where
  "positiveIndices oldGrid j n = filter (\<lambda>i. 0 < oldGrid ! i) [j..<n]"

definition priceSplineOf :: "Array \<Rightarrow> Array \<Rightarrow> CubicSpline" where
  "priceSplineOf prices oldGrid =
     \<lparr>knots = map (\<lambda>i. ln (oldGrid ! i)) (positiveIndices oldGrid 0 (length oldGrid)),
      ordinates = map (\<lambda>i. prices ! i) (positiveIndices oldGrid 0 (length oldGrid))\<rparr>"

subsection \<open>The transfer on arrays held by reference\<close>

text \<open>
  The three parameters of \<^verbatim>\<open>movePricesBeforeExDiv\<close> are references. Here the arrays
  live in a store addressed by natural numbers, the second loop reads both grids from
  the store at every iteration and writes \<open>prices[j]\<close> into it, so that a call whose
  arguments alias is modelled as the code runs it. The first loop writes nothing.
\<close>

type_synonym store = "nat \<Rightarrow> Array"

function evaluateOnNewGridRef ::
  "(CubicSpline \<Rightarrow> real \<Rightarrow> real) \<Rightarrow> CubicSpline \<Rightarrow> nat \<Rightarrow> nat \<Rightarrow> nat \<Rightarrow> nat \<Rightarrow> nat \<Rightarrow> store
     \<Rightarrow> error + store" where
  "evaluateOnNewGridRef ev priceSpline pricesRef newGridRef oldGridRef gridSize j st =
     (if j < gridSize then
        (if gridSize < 2 \<or> length (st oldGridRef) \<le> gridSize - 2
            \<or> length (st newGridRef) \<le> j
            \<or> length (st newGridRef) \<le> jGrid (st newGridRef) (st oldGridRef) gridSize j
            \<or> length (st pricesRef) \<le> j
         then Inl IndexOutOfRange
         else evaluateOnNewGridRef ev priceSpline pricesRef newGridRef oldGridRef gridSize (Suc j)
                (st(pricesRef := (st pricesRef)
                   [j := ev priceSpline
                           (ln (st newGridRef ! jGrid (st newGridRef) (st oldGridRef) gridSize j))])))
      else Inr st)"
  by pat_completeness auto
termination
  by (relation "measure (\<lambda>(ev, priceSpline, pricesRef, newGridRef, oldGridRef, gridSize, j, st).
                           gridSize - j)")
     auto

declare evaluateOnNewGridRef.simps [simp del]

definition movePricesBeforeExDivRef ::
  "(CubicSpline \<Rightarrow> real \<Rightarrow> real) \<Rightarrow> nat \<Rightarrow> nat \<Rightarrow> nat \<Rightarrow> store \<Rightarrow> error + store" where
  "movePricesBeforeExDivRef ev pricesRef newGridRef oldGridRef st =
     (let gridSize = length (st oldGridRef) in
      case collectLogGrid (st pricesRef) (st oldGridRef) gridSize 0 [] [] of
        Inl e \<Rightarrow> Inl e
      | Inr (logOldGrid, tmpPrices) \<Rightarrow>
          (case newCubicSpline logOldGrid tmpPrices of
             Inl e \<Rightarrow> Inl e
           | Inr priceSpline \<Rightarrow>
               evaluateOnNewGridRef ev priceSpline pricesRef newGridRef oldGridRef gridSize 0 st))"

text \<open>The result of a call in the store, given the new contents of the price array.\<close>

definition stored :: "store \<Rightarrow> nat \<Rightarrow> error + Array \<Rightarrow> error + store" where
  "stored st pricesRef r = (case r of Inl e \<Rightarrow> Inl e | Inr out \<Rightarrow> Inr (st(pricesRef := out)))"

subsection \<open>The option\<close>

text \<open>
  The members that the three functions read or write. The finite-difference operator and
  the model are kept as the arrays they are built from.
\<close>

type_synonym TridiagonalOperator = "Array \<times> Array \<times> Array"

record MultiPeriodOption =
  underlying_m :: real
  dates_m :: "real list"
  dateNumber_m :: nat
  center_m :: real
  sMin_m :: real
  sMax_m :: real
  grid_m :: Array
  initialPrices_m :: Array
  prices_m :: Array
  controlPrices_m :: Array
  finiteDifferenceOperator_m :: TridiagonalOperator
  model_m :: TridiagonalOperator
  stepCondition_m :: "Array \<Rightarrow> real \<Rightarrow> Array"

record DividendOption = MultiPeriodOption +
  dividends_m :: "real list"

text \<open>
  Double arithmetic. A finite double is the real number it denotes. The result of an
  addition or subtraction is the exact result rounded to 53 significant bits, to the
  nearest such number and in a tie to the one whose last bit is even; below
  \<open>2^-1022\<close> the spacing stays that of the smallest normal numbers. Infinities and
  NaN are not represented. \<open>binade x\<close> is the exponent \<open>e\<close> with
  \<open>2^e \<le> x < 2^(e+1)\<close> of a positive \<open>x\<close>, and \<open>ulp x\<close> the spacing of the doubles
  around \<open>x\<close>.
\<close>

function binade :: "real \<Rightarrow> int" where
  "binade x = (if 2 \<le> x then binade (x / 2) + 1
               else if 0 < x \<and> x < 1 then binade (2 * x) - 1
               else 0)"
  by pat_completeness auto
termination
proof (relation "measure (\<lambda>x. if 1 \<le> x then nat \<lfloor>x\<rfloor> else 1 + nat \<lceil>1 / x\<rceil>)")
  show "wf (measure (\<lambda>x::real. if 1 \<le> x then nat \<lfloor>x\<rfloor> else 1 + nat \<lceil>1 / x\<rceil>))"
    by simp
next
  fix x :: real assume "2 \<le> x"
  then have "\<lfloor>x / 2\<rfloor> < \<lfloor>x\<rfloor>" by linarith
  with \<open>2 \<le> x\<close>
  show "(x / 2, x) \<in> measure (\<lambda>x. if 1 \<le> x then nat \<lfloor>x\<rfloor> else 1 + nat \<lceil>1 / x\<rceil>)"
    by auto
next
  fix x :: real assume a: "\<not> 2 \<le> x" "0 < x \<and> x < 1"
  show "(2 * x, x) \<in> measure (\<lambda>x. if 1 \<le> x then nat \<lfloor>x\<rfloor> else 1 + nat \<lceil>1 / x\<rceil>)"
  proof (cases "1 \<le> 2 * x")
    case True
    with a have "\<lfloor>2 * x\<rfloor> = 1" by linarith
    moreover from a have "1 < 1 / x" by simp
    then have "2 \<le> \<lceil>1 / x\<rceil>" by linarith
    ultimately show ?thesis using a True by auto
  next
    case False
    with a have big: "2 < 1 / x" by (simp add: field_simps)
    have "1 / (2 * x) = (1 / x) / 2" by simp
    then have "\<lceil>1 / (2 * x)\<rceil> < \<lceil>1 / x\<rceil>" using big by linarith
    moreover have "0 < \<lceil>1 / x\<rceil>" using big by linarith
    ultimately show ?thesis using a False by auto
  qed
qed

declare binade.simps [simp del]

definition roundToEven :: "real \<Rightarrow> int" where
  "roundToEven m =
     (let f = \<lfloor>m\<rfloor> in
      if m - of_int f < 1 / 2 then f
      else if m - of_int f > 1 / 2 then f + 1
      else if even f then f else f + 1)"

definition ulp :: "real \<Rightarrow> real" where
  "ulp x = (let e = max (binade \<bar>x\<bar>) (- 1022)
            in if 52 \<le> e then 2 ^ nat (e - 52) else 1 / 2 ^ nat (52 - e))"

definition roundDouble :: "real \<Rightarrow> real" where
  "roundDouble x = of_int (roundToEven (x / ulp x)) * ulp x"

text \<open>
  Modelled from the spec: \<^verbatim>\<open>addElements\<close> (absent from the sources) is the cumulative
  sum of the dividends. It is accumulated in double arithmetic from \<open>0.0\<close>, from the first
  element to the last.
\<close>

definition addElements :: "real list \<Rightarrow> real" where
  "addElements v = foldl (\<lambda>acc d. roundDouble (acc + d)) 0 v"

text \<open>
  The constructor. The constructor of the base class \<^verbatim>\<open>MultiPeriodOption\<close> is absent
  from the sources and is the parameter \<open>newMultiPeriodOption\<close>, a function of the two
  arguments that this constructor computes or checks (the net underlying and the dates);
  the other arguments are forwarded unchanged. It runs first, and its failure is the
  failure of the construction. The comparison \<open>underlying > addElements(dividends)\<close> is
  between two doubles and is exact. The second message prints
  \<open>underlying - underlying_\<close> and \<open>underlying\<close>.
\<close>

definition newDividendOption ::
  "(real \<Rightarrow> real list \<Rightarrow> error + MultiPeriodOption) \<Rightarrow> real \<Rightarrow> real list \<Rightarrow> real list
     \<Rightarrow> error + DividendOption" where
  "newDividendOption newMultiPeriodOption underlying dividends exdivdates =
     (case newMultiPeriodOption (roundDouble (underlying - addElements dividends)) exdivdates of
        Inl e \<Rightarrow> Inl e
      | Inr base \<Rightarrow>
          if dateNumber_m base \<noteq> length dividends
          then Inl (ConfigurationError (CountMismatch (length dividends) (dateNumber_m base)))
          else if \<not> underlying > addElements dividends
          then Inl (ConfigurationError
                      (DividendsExceedUnderlying
                         (roundDouble (underlying - underlying_m base)) underlying))
          else Inr (MultiPeriodOption.extend base (DividendOption.fields dividends)))"

text \<open>
  Modelled from the spec: a constructor of the base class that stores the net underlying
  and the step dates, counts the dates, and starts from the given members. It is the
  instance at which the theorem about the constructor is applied.
\<close>

definition storingBase :: "MultiPeriodOption \<Rightarrow> real \<Rightarrow> real list \<Rightarrow> error + MultiPeriodOption" where
  "storingBase init u ds =
     Inr (init\<lparr>underlying_m := u, dates_m := ds, dateNumber_m := length ds\<rparr>)"

subsection \<open>executeIntermediateStep\<close>

text \<open>
  The methods of the base classes that \<^verbatim>\<open>executeIntermediateStep\<close> calls are absent from
  the sources. What they compute is a parameter; which members they write is modelled
  from the spec.
\<close>

record Engine =
  spline :: "CubicSpline \<Rightarrow> real \<Rightarrow> real"
  gridLimits :: "real \<Rightarrow> real \<Rightarrow> DividendOption \<Rightarrow> real \<times> real"
  gridFor :: "DividendOption \<Rightarrow> Array"
  initialConditionFor :: "DividendOption \<Rightarrow> Array"
  operatorFor :: "DividendOption \<Rightarrow> TridiagonalOperator"
  modelFor :: "DividendOption \<Rightarrow> TridiagonalOperator"
  stepConditionFor :: "DividendOption \<Rightarrow> Array \<Rightarrow> real \<Rightarrow> Array"

text \<open>
  Modelled from the spec: \<^verbatim>\<open>setGridLimits(center, date)\<close> (absent from the sources) stores
  the value it is given as the new centre and sets the limits \<open>sMin_\<close> and \<open>sMax_\<close> of
  the grid; the limits it computes are the parameter \<open>gridLimits\<close>.
\<close>

definition setGridLimits :: "Engine \<Rightarrow> real \<Rightarrow> real \<Rightarrow> DividendOption \<Rightarrow> DividendOption" where
  "setGridLimits E center date this =
     this\<lparr>center_m := center,
          sMin_m := fst (gridLimits E center date this),
          sMax_m := snd (gridLimits E center date this)\<rparr>"

text \<open>
  Modelled from the spec: \<^verbatim>\<open>initializeGrid()\<close> (absent from the sources) rebuilds the grid
  from the centre and the limits.
\<close>

definition initializeGrid :: "Engine \<Rightarrow> DividendOption \<Rightarrow> DividendOption" where
  "initializeGrid E this = this\<lparr>grid_m := gridFor E this\<rparr>"

text \<open>
  Modelled from the spec: \<^verbatim>\<open>initializeInitialCondition()\<close> (absent from the sources)
  rebuilds the initial prices on the grid.
\<close>

definition initializeInitialCondition :: "Engine \<Rightarrow> DividendOption \<Rightarrow> DividendOption" where
  "initializeInitialCondition E this = this\<lparr>initialPrices_m := initialConditionFor E this\<rparr>"

text \<open>
  Modelled from the spec: \<^verbatim>\<open>initializeOperator()\<close> (absent from the sources) rebuilds the
  differential operator for the new grid.
\<close>

definition initializeOperator :: "Engine \<Rightarrow> DividendOption \<Rightarrow> DividendOption" where
  "initializeOperator E this = this\<lparr>finiteDifferenceOperator_m := operatorFor E this\<rparr>"

text \<open>
  Modelled from the spec: \<^verbatim>\<open>initializeModel()\<close> (absent from the sources) rebuilds the
  model for the new grid.
\<close>

definition initializeModel :: "Engine \<Rightarrow> DividendOption \<Rightarrow> DividendOption" where
  "initializeModel E this = this\<lparr>model_m := modelFor E this\<rparr>"

text \<open>
  Modelled from the spec: \<^verbatim>\<open>initializeStepCondition()\<close> (absent from the sources) rebuilds
  the step condition of the instrument; \<^verbatim>\<open>applyTo(array, date)\<close> of a step condition
  updates the array it is given.
\<close>

definition initializeStepCondition :: "Engine \<Rightarrow> DividendOption \<Rightarrow> DividendOption" where
  "initializeStepCondition E this = this\<lparr>stepCondition_m := stepConditionFor E this\<rparr>"

text \<open>
  \<^verbatim>\<open>executeIntermediateStep(int step)\<close>. The lines up to \<^verbatim>\<open>initializeInitialCondition()\<close>
  cannot fail once \<open>step\<close> is in range, and are given names: \<open>updateLimits\<close> is the
  computation of \<open>newSMin\<close>, the call of \<^verbatim>\<open>setGridLimits\<close> and the conditional;
  \<open>shiftedGrid\<close> is the local array \<open>oldGrid\<close>; \<open>rebuiltGrid\<close> is the state after
  \<^verbatim>\<open>initializeGrid()\<close> and \<^verbatim>\<open>initializeInitialCondition()\<close>.
\<close>

definition updateLimits :: "Engine \<Rightarrow> nat \<Rightarrow> DividendOption \<Rightarrow> DividendOption" where
  "updateLimits E step this =
     (let newSMin = sMin_m this + dividends_m this ! step;
          s1 = setGridLimits E (center_m this + dividends_m this ! step) (dates_m this ! step) this
      in if newSMin > sMin_m s1
         then s1\<lparr>sMin_m := newSMin, sMax_m := center_m s1 / (newSMin / center_m s1)\<rparr>
         else s1)"

definition shiftedGrid :: "Engine \<Rightarrow> nat \<Rightarrow> DividendOption \<Rightarrow> Array" where
  "shiftedGrid E step this =
     map (\<lambda>g. g + dividends_m this ! step) (grid_m (updateLimits E step this))"

definition rebuiltGrid :: "Engine \<Rightarrow> nat \<Rightarrow> DividendOption \<Rightarrow> DividendOption" where
  "rebuiltGrid E step this =
     initializeInitialCondition E (initializeGrid E (updateLimits E step this))"

definition executeIntermediateStep :: "Engine \<Rightarrow> nat \<Rightarrow> DividendOption \<Rightarrow> error + DividendOption" where
  "executeIntermediateStep E step this =
     (if length (dividends_m this) \<le> step \<or> length (dates_m this) \<le> step
      then Inl IndexOutOfRange
      else
        let oldGrid = shiftedGrid E step this;
            s = rebuiltGrid E step this
        in case movePricesBeforeExDiv (spline E) (prices_m s) (grid_m s) oldGrid of
             Inl e \<Rightarrow> Inl e
           | Inr p \<Rightarrow>
               let s1 = s\<lparr>prices_m := p\<rparr>
               in (case movePricesBeforeExDiv (spline E) (controlPrices_m s1) (grid_m s1) oldGrid of
                     Inl e \<Rightarrow> Inl e
                   | Inr c \<Rightarrow>
                       let s2 = s1\<lparr>controlPrices_m := c\<rparr>;
                           s' = initializeStepCondition E
                                  (initializeModel E (initializeOperator E s2))
                       in Inr (s'\<lparr>prices_m :=
                                    stepCondition_m s' (prices_m s') (dates_m s' ! step)\<rparr>)))"

subsection \<open>An engine and an option to run the step on\<close>

text \<open>
  An engine at which the theorems about an arbitrary engine are applied: the natural
  spline, limits at a quarter and at four times the centre, a grid of three points (the
  limits and the centre), a call payoff struck at 100 as the initial condition, and an
  American step condition that floors the prices at the initial condition.
\<close>

definition exampleEngine :: Engine where
  "exampleEngine =
     \<lparr>spline = naturalSpline,
      gridLimits = (\<lambda>center date this. (center / 4, center * 4)),
      gridFor = (\<lambda>this. [sMin_m this, center_m this, sMax_m this]),
      initialConditionFor = (\<lambda>this. map (\<lambda>g. max (g - 100) 0) (grid_m this)),
      operatorFor = (\<lambda>this. (grid_m this, grid_m this, grid_m this)),
      modelFor = (\<lambda>this. finiteDifferenceOperator_m this),
      stepConditionFor = (\<lambda>this a t. map2 max a (initialPrices_m this))\<rparr>"

definition exampleOption :: DividendOption where
  "exampleOption =
     \<lparr>underlying_m = 95, dates_m = [1 / 2], dateNumber_m = 1,
      center_m = 95, sMin_m = 95 / 4, sMax_m = 380,
      grid_m = [95 / 4, 95, 380],
      initialPrices_m = [0, 0, 280],
      prices_m = [0, 3, 280],
      controlPrices_m = [0, 2, 280],
      finiteDifferenceOperator_m = ([], [], []),
      model_m = ([], [], []),
      stepCondition_m = (\<lambda>a t. a),
      dividends_m = [5]\<rparr>"

text \<open>The members of the base class before it is constructed, for the example.\<close>

definition exampleBase :: MultiPeriodOption where
  "exampleBase =
     \<lparr>underlying_m = 0, dates_m = [], dateNumber_m = 0,
      center_m = 0, sMin_m = 0, sMax_m = 0,
      grid_m = [], initialPrices_m = [], prices_m = [], controlPrices_m = [],
      finiteDifferenceOperator_m = ([], [], []),
      model_m = ([], [], []),
      stepCondition_m = (\<lambda>a t. a)\<rparr>"

text \<open>
  A store with the primary prices at address 0, the control prices at 1, the new grid at
  2 and the old grid at 3.
\<close>

definition exampleStore :: store where
  "exampleStore =
     (\<lambda>a. [])(0 := [0, 5, 12], 1 := [0, 4, 11], 2 := [2, 50, 60], 3 := [1, 10, 100])"

section \<open>Properties\<close>

subsection \<open>The two loops\<close>

lemma collectLogGrid_eq:
  "gridSize \<le> length prices \<Longrightarrow> gridSize \<le> length oldGrid \<Longrightarrow>
   collectLogGrid prices oldGrid gridSize j logOldGrid tmpPrices =
     Inr (logOldGrid @ map (\<lambda>i. ln (oldGrid ! i)) (positiveIndices oldGrid j gridSize),
          tmpPrices @ map (\<lambda>i. prices ! i) (positiveIndices oldGrid j gridSize))"
proof (induction prices oldGrid gridSize j logOldGrid tmpPrices rule: collectLogGrid.induct)
  case (1 prices oldGrid gridSize j logOldGrid tmpPrices)
  show ?case
  proof (cases "j < gridSize")
    case True
    then have up: "[j..<gridSize] = j # [Suc j..<gridSize]"
      by (simp add: upt_conv_Cons)
    from True 1 show ?thesis
      by (subst collectLogGrid.simps) (simp add: positiveIndices_def up)
  next
    case False
    then show ?thesis
      by (subst collectLogGrid.simps) (simp add: positiveIndices_def)
  qed
qed

lemma collectLogGrid_Inr_bounds:
  "collectLogGrid prices oldGrid gridSize j logOldGrid tmpPrices = Inr r \<Longrightarrow> j < gridSize \<Longrightarrow>
   gridSize \<le> length prices \<and> gridSize \<le> length oldGrid"
proof (induction prices oldGrid gridSize j logOldGrid tmpPrices rule: collectLogGrid.induct)
  case (1 prices oldGrid gridSize j logOldGrid tmpPrices)
  from "1.prems" have ok: "\<not> (length prices \<le> j \<or> length oldGrid \<le> j)"
    by (subst (asm) collectLogGrid.simps) (auto split: if_splits)
  show ?case
  proof (cases "Suc j < gridSize")
    case False
    with "1.prems" ok show ?thesis by auto
  next
    case True
    from "1.prems" ok have
      "collectLogGrid prices oldGrid gridSize (Suc j)
         (logOldGrid @ [ln (oldGrid ! j)]) (tmpPrices @ [prices ! j]) = Inr r
       \<or> collectLogGrid prices oldGrid gridSize (Suc j) logOldGrid tmpPrices = Inr r"
      by (subst (asm) collectLogGrid.simps) (auto split: if_splits)
    then show ?thesis
      using "1.IH"(1)[OF "1.prems"(2) ok _ _ True] "1.IH"(2)[OF "1.prems"(2) ok _ _ True]
            "1.prems" ok
      by (cases "0 < oldGrid ! j")
         (auto simp: collectLogGrid.simps[of prices oldGrid gridSize j] split: if_splits)
  qed
qed

lemma evaluateOnNewGrid_Inr:
  "evaluateOnNewGrid ev sp newGrid oldGrid gridSize j prices = Inr out \<Longrightarrow>
   length out = length prices \<and>
   (\<forall>i. j \<le> i \<and> i < gridSize \<longrightarrow>
        out ! i = ev sp (ln (newGrid ! jGrid newGrid oldGrid gridSize i))) \<and>
   (\<forall>i. i < j \<or> gridSize \<le> i \<longrightarrow> out ! i = prices ! i)"
proof (induction ev sp newGrid oldGrid gridSize j prices rule: evaluateOnNewGrid.induct)
  case (1 ev sp newGrid oldGrid gridSize j prices)
  show ?case
  proof (cases "j < gridSize")
    case False
    with "1.prems" show ?thesis
      by (subst (asm) evaluateOnNewGrid.simps) auto
  next
    case True
    let ?p = "prices[j := ev sp (ln (newGrid ! jGrid newGrid oldGrid gridSize j))]"
    from True "1.prems" have ok:
      "\<not> (gridSize < 2 \<or> length oldGrid \<le> gridSize - 2 \<or> length newGrid \<le> j
          \<or> length newGrid \<le> jGrid newGrid oldGrid gridSize j \<or> length prices \<le> j)"
      by (subst (asm) evaluateOnNewGrid.simps) (auto split: if_splits)
    with True "1.prems" have run:
      "evaluateOnNewGrid ev sp newGrid oldGrid gridSize (Suc j) ?p = Inr out"
      by (subst (asm) evaluateOnNewGrid.simps) (simp split: if_splits)
    from "1.IH"[OF True ok run] have
      len: "length out = length ?p" and
      hi: "\<And>i. Suc j \<le> i \<Longrightarrow> i < gridSize \<Longrightarrow>
                out ! i = ev sp (ln (newGrid ! jGrid newGrid oldGrid gridSize i))" and
      lo: "\<And>i. i < Suc j \<or> gridSize \<le> i \<Longrightarrow> out ! i = ?p ! i"
      by auto
    have "out ! j = ?p ! j" using lo by simp
    with ok have atj: "out ! j = ev sp (ln (newGrid ! jGrid newGrid oldGrid gridSize j))"
      by simp
    show ?thesis
    proof (intro conjI allI impI)
      show "length out = length prices" using len by simp
    next
      fix i assume "j \<le> i \<and> i < gridSize"
      then show "out ! i = ev sp (ln (newGrid ! jGrid newGrid oldGrid gridSize i))"
        using hi[of i] atj by (cases "i = j") auto
    next
      fix i assume a: "i < j \<or> gridSize \<le> i"
      then have "out ! i = ?p ! i" using lo[of i] by auto
      also have "\<dots> = prices ! i" using a True by auto
      finally show "out ! i = prices ! i" .
    qed
  qed
qed

lemma evaluateOnNewGrid_succeeds:
  "2 \<le> gridSize \<Longrightarrow> gridSize \<le> length oldGrid \<Longrightarrow> gridSize \<le> length newGrid \<Longrightarrow>
   gridSize \<le> length prices \<Longrightarrow>
   \<exists>out. evaluateOnNewGrid ev sp newGrid oldGrid gridSize j prices = Inr out"
proof (induction ev sp newGrid oldGrid gridSize j prices rule: evaluateOnNewGrid.induct)
  case (1 ev sp newGrid oldGrid gridSize j prices)
  show ?case
  proof (cases "j < gridSize")
    case False
    then show ?thesis by (subst evaluateOnNewGrid.simps) simp
  next
    case True
    have "jGrid newGrid oldGrid gridSize j < gridSize"
      using True "1.prems" by (simp add: jGrid_def)
    with True "1.prems" have ok:
      "\<not> (gridSize < 2 \<or> length oldGrid \<le> gridSize - 2 \<or> length newGrid \<le> j
          \<or> length newGrid \<le> jGrid newGrid oldGrid gridSize j \<or> length prices \<le> j)"
      by auto
    from "1.IH"[OF True ok] "1.prems" obtain out where
      "evaluateOnNewGrid ev sp newGrid oldGrid gridSize (Suc j)
         (prices[j := ev sp (ln (newGrid ! jGrid newGrid oldGrid gridSize j))]) = Inr out"
      by auto
    with True ok show ?thesis
      by (subst evaluateOnNewGrid.simps) simp
  qed
qed

subsection \<open>The transfer as a whole\<close>

lemma positive_points:
  "map (\<lambda>i. oldGrid ! i) (positiveIndices oldGrid 0 (length oldGrid)) = filter (\<lambda>g. 0 < g) oldGrid"
proof -
  have "filter (\<lambda>g. 0 < g) (map (\<lambda>i. oldGrid ! i) [0..<length oldGrid])
        = map (\<lambda>i. oldGrid ! i) (filter ((\<lambda>g. 0 < g) \<circ> (\<lambda>i. oldGrid ! i)) [0..<length oldGrid])"
    by (rule filter_map)
  then show ?thesis
    by (simp add: positiveIndices_def map_nth comp_def)
qed

lemma movePricesBeforeExDiv_unfold:
  assumes "length oldGrid \<le> length prices"
  shows "movePricesBeforeExDiv ev prices newGrid oldGrid =
           (if length (filter (\<lambda>g. 0 < g) oldGrid) < 2 then Inl DegenerateGridError
            else evaluateOnNewGrid ev (priceSplineOf prices oldGrid) newGrid oldGrid
                   (length oldGrid) 0 prices)"
proof -
  have "length (positiveIndices oldGrid 0 (length oldGrid)) = length (filter (\<lambda>g. 0 < g) oldGrid)"
    using positive_points[of oldGrid] by (metis length_map)
  then show ?thesis
    using assms
    by (simp add: movePricesBeforeExDiv_def Let_def collectLogGrid_eq newCubicSpline_def
                  priceSplineOf_def)
qed

lemma movePricesBeforeExDiv_Inr_length:
  assumes "movePricesBeforeExDiv ev prices newGrid oldGrid = Inr out"
  shows "length oldGrid \<le> length prices"
proof (cases "0 < length oldGrid")
  case False
  then show ?thesis by simp
next
  case True
  from assms obtain r where "collectLogGrid prices oldGrid (length oldGrid) 0 [] [] = Inr r"
    by (auto simp: movePricesBeforeExDiv_def Let_def split: sum.splits)
  from collectLogGrid_Inr_bounds[OF this True] show ?thesis by simp
qed

lemma movePricesBeforeExDiv_Inr:
  assumes "movePricesBeforeExDiv ev prices newGrid oldGrid = Inr out"
  shows "evaluateOnNewGrid ev (priceSplineOf prices oldGrid) newGrid oldGrid
           (length oldGrid) 0 prices = Inr out"
  using assms movePricesBeforeExDiv_unfold[OF movePricesBeforeExDiv_Inr_length[OF assms]]
  by (simp split: if_splits)

lemma movePricesBeforeExDiv_succeeds:
  assumes "length oldGrid \<le> length prices" and "length oldGrid \<le> length newGrid"
    and "2 \<le> length (filter (\<lambda>g. 0 < g) oldGrid)"
  shows "\<exists>out. movePricesBeforeExDiv ev prices newGrid oldGrid = Inr out"
proof -
  have "length (filter (\<lambda>g. 0 < g) oldGrid) \<le> length oldGrid"
    by (rule length_filter_le)
  with assms(3) have "2 \<le> length oldGrid" by (rule order_trans)
  from evaluateOnNewGrid_succeeds[OF this _ assms(2) assms(1)] assms(3)
  show ?thesis
    by (simp add: movePricesBeforeExDiv_unfold[OF assms(1)])
qed

lemma evaluateOnNewGrid_result:
  assumes "evaluateOnNewGrid ev sp newGrid oldGrid n 0 prices = Inr out"
    and "n \<le> length prices"
  shows "out = map (\<lambda>j. ev sp (ln (newGrid ! jGrid newGrid oldGrid n j))) [0..<n] @ drop n prices"
proof (rule nth_equalityI)
  note vals = evaluateOnNewGrid_Inr[OF assms(1)]
  show "length out =
          length (map (\<lambda>j. ev sp (ln (newGrid ! jGrid newGrid oldGrid n j))) [0..<n] @ drop n prices)"
    using vals assms(2) by simp
  fix i assume "i < length out"
  with vals have il: "i < length prices" by simp
  show "out ! i =
          (map (\<lambda>j. ev sp (ln (newGrid ! jGrid newGrid oldGrid n j))) [0..<n] @ drop n prices) ! i"
  proof (cases "i < n")
    case True
    with vals show ?thesis by (simp add: nth_append)
  next
    case False
    with vals have "out ! i = prices ! i" by simp
    with False il assms(2) show ?thesis by (simp add: nth_append)
  qed
qed



lemma movePricesBeforeExDiv_result:
  assumes "length oldGrid \<le> length prices" and "length oldGrid \<le> length newGrid"
    and "2 \<le> length (filter (\<lambda>g. 0 < g) oldGrid)"
  shows "movePricesBeforeExDiv ev prices newGrid oldGrid =
           Inr (map (\<lambda>j. ev (priceSplineOf prices oldGrid)
                            (ln (newGrid ! jGrid newGrid oldGrid (length oldGrid) j)))
                    [0..<length oldGrid]
                @ drop (length oldGrid) prices)"
proof -
  obtain out where run: "movePricesBeforeExDiv ev prices newGrid oldGrid = Inr out"
    using movePricesBeforeExDiv_succeeds[OF assms] by blast
  from evaluateOnNewGrid_result[OF movePricesBeforeExDiv_Inr[OF run] assms(1)] run
  show ?thesis by simp
qed

lemma list3_eqI:
  assumes "length xs = 3" and "xs ! 0 = a" and "xs ! 1 = b" and "xs ! 2 = c"
  shows "xs = [a, b, c]"
proof (rule nth_equalityI)
  show "length xs = length [a, b, c]" using assms(1) by simp
next
  fix i assume "i < length xs"
  with assms(1) have "i = 0 \<or> i = 1 \<or> i = 2" by auto
  with assms(2-4) show "xs ! i = [a, b, c] ! i" by auto
qed

lemma priceSplineOf_example:
  "priceSplineOf [0, 5, 12] [1, 10, 100] = \<lparr>knots = [0, ln 10, ln 100], ordinates = [0, 5, 12]\<rparr>"
  by (simp add: priceSplineOf_def positiveIndices_def upt_conv_Cons)

subsection \<open>Where the spline is evaluated\<close>

text \<open>
  Counterexample to C1 as stated. The price array has 4 elements and the old grid 3
  points: the loop ends at index 2, and output index 3 keeps the input price 20. Run with
  \<open>evaluationPoint\<close>, the rule of the claim would put \<open>ln (newGrid[1]) = ln 5\<close> there.
\<close>

theorem transfer_unassigned_index_counterexample:
  "movePricesBeforeExDiv naturalSpline [0, 5, 12, 20] [2, 5, 50, 70, 80] [1, 10, 100] =
     Inr [naturalSpline \<lparr>knots = [0, ln 10, ln 100], ordinates = [0, 5, 12]\<rparr> (ln 2),
          naturalSpline \<lparr>knots = [0, ln 10, ln 100], ordinates = [0, 5, 12]\<rparr> (ln 5),
          naturalSpline \<lparr>knots = [0, ln 10, ln 100], ordinates = [0, 5, 12]\<rparr> (ln 5),
          20]
   \<and> movePricesBeforeExDiv evaluationPoint [0, 5, 12, 20] [2, 5, 50, 70, 80] [1, 10, 100] =
     Inr [ln 2, ln 5, ln 5, 20]
   \<and> ln 5 < (20 :: real)"
proof -
  have "ln 5 < (5 :: real)" by (rule ln_less_self) simp
  then have "ln 5 < (20 :: real)" by (rule less_trans) simp
  moreover have
    "priceSplineOf [0, 5, 12, 20] [1, 10, 100] = \<lparr>knots = [0, ln 10, ln 100], ordinates = [0, 5, 12]\<rparr>"
    by (simp add: priceSplineOf_def positiveIndices_def upt_conv_Cons)
  ultimately show ?thesis
    using movePricesBeforeExDiv_result[of "[1, 10, 100]" "[0, 5, 12, 20]" "[2, 5, 50, 70, 80]" naturalSpline]
          movePricesBeforeExDiv_result[of "[1, 10, 100]" "[0, 5, 12, 20]" "[2, 5, 50, 70, 80]" evaluationPoint]
    by (simp add: upt_conv_Cons jGrid_def evaluationPoint_def)
qed

text \<open>
  C1, amended. When the transfer returns, the price at every index \<open>j\<close> of the loop (the
  indices below the size of the old grid) is the value of the spline built from the
  positive points of the old grid, taken at \<open>ln (newGrid[jGrid])\<close>, where \<open>jGrid\<close> is
  \<open>j\<close> if \<open>newGrid[j] < oldGrid[size - 2]\<close> and \<open>size - 2\<close> otherwise; \<open>size\<close> is the
  length of the old grid, and the index is used on the new grid. The price at every
  index from the size of the old grid on is not assigned: it is the input price.
\<close>

theorem transfer_evaluates_at_jGrid:
  assumes "movePricesBeforeExDiv ev prices newGrid oldGrid = Inr out"
  shows "(j < length oldGrid \<longrightarrow>
            out ! j =
              ev (priceSplineOf prices oldGrid)
                 (ln (newGrid ! (if newGrid ! j < oldGrid ! (length oldGrid - 2)
                                 then j else length oldGrid - 2))))
         \<and> (length oldGrid \<le> j \<longrightarrow> out ! j = prices ! j)"
proof (intro conjI impI)
  note vals = evaluateOnNewGrid_Inr[OF movePricesBeforeExDiv_Inr[OF assms]]
  {
    assume "j < length oldGrid"
    with vals
    have "out ! j = ev (priceSplineOf prices oldGrid)
                      (ln (newGrid ! jGrid newGrid oldGrid (length oldGrid) j))"
      by simp
    moreover have "jGrid newGrid oldGrid (length oldGrid) j =
                     (if newGrid ! j < oldGrid ! (length oldGrid - 2) then j else length oldGrid - 2)"
      by (simp add: jGrid_def not_less)
    ultimately show "out ! j =
              ev (priceSplineOf prices oldGrid)
                 (ln (newGrid ! (if newGrid ! j < oldGrid ! (length oldGrid - 2)
                                 then j else length oldGrid - 2)))"
      by simp
  }
  {
    assume "length oldGrid \<le> j"
    with vals show "out ! j = prices ! j" by simp
  }
qed

theorem transfer_evaluates_at_jGrid_witness:
  "movePricesBeforeExDiv naturalSpline [0, 5, 12] [2, 50, 60] [1, 10, 100] =
     Inr [naturalSpline \<lparr>knots = [0, ln 10, ln 100], ordinates = [0, 5, 12]\<rparr> (ln 2),
          naturalSpline \<lparr>knots = [0, ln 10, ln 100], ordinates = [0, 5, 12]\<rparr> (ln 50),
          naturalSpline \<lparr>knots = [0, ln 10, ln 100], ordinates = [0, 5, 12]\<rparr> (ln 50)]"
proof -
  obtain out where
    run: "movePricesBeforeExDiv naturalSpline [0, 5, 12] [2, 50, 60] [1, 10, 100] = Inr out"
    using movePricesBeforeExDiv_succeeds[of "[1, 10, 100]" "[0, 5, 12]" "[2, 50, 60]" naturalSpline]
    by auto
  have len: "length out = 3"
    using evaluateOnNewGrid_Inr[OF movePricesBeforeExDiv_Inr[OF run]] by simp
  have "out ! 0 = naturalSpline \<lparr>knots = [0, ln 10, ln 100], ordinates = [0, 5, 12]\<rparr> (ln 2)"
    using transfer_evaluates_at_jGrid[OF run, of 0] by (simp add: priceSplineOf_example)
  moreover
  have "out ! 1 = naturalSpline \<lparr>knots = [0, ln 10, ln 100], ordinates = [0, 5, 12]\<rparr> (ln 50)"
    using transfer_evaluates_at_jGrid[OF run, of 1] by (simp add: priceSplineOf_example)
  moreover
  have "out ! 2 = naturalSpline \<lparr>knots = [0, ln 10, ln 100], ordinates = [0, 5, 12]\<rparr> (ln 50)"
    using transfer_evaluates_at_jGrid[OF run, of 2] by (simp add: priceSplineOf_example)
  ultimately have
    "out = [naturalSpline \<lparr>knots = [0, ln 10, ln 100], ordinates = [0, 5, 12]\<rparr> (ln 2),
            naturalSpline \<lparr>knots = [0, ln 10, ln 100], ordinates = [0, 5, 12]\<rparr> (ln 50),
            naturalSpline \<lparr>knots = [0, ln 10, ln 100], ordinates = [0, 5, 12]\<rparr> (ln 50)]"
    using len by (intro list3_eqI)
  with run show ?thesis by simp
qed

lemma evaluateOnNewGrid_Inr_bounds:
  "evaluateOnNewGrid ev sp newGrid oldGrid gridSize j prices = Inr out \<Longrightarrow> j < gridSize \<Longrightarrow>
   gridSize \<le> length newGrid"
proof (induction ev sp newGrid oldGrid gridSize j prices rule: evaluateOnNewGrid.induct)
  case (1 ev sp newGrid oldGrid gridSize j prices)
  let ?p = "prices[j := ev sp (ln (newGrid ! jGrid newGrid oldGrid gridSize j))]"
  from "1.prems" have ok:
    "\<not> (gridSize < 2 \<or> length oldGrid \<le> gridSize - 2 \<or> length newGrid \<le> j
        \<or> length newGrid \<le> jGrid newGrid oldGrid gridSize j \<or> length prices \<le> j)"
    by (subst (asm) evaluateOnNewGrid.simps) (auto split: if_splits)
  with "1.prems" have run:
    "evaluateOnNewGrid ev sp newGrid oldGrid gridSize (Suc j) ?p = Inr out"
    by (subst (asm) evaluateOnNewGrid.simps) (simp split: if_splits)
  show ?case
  proof (cases "Suc j < gridSize")
    case True
    from "1.IH"[OF "1.prems"(2) ok run True] show ?thesis .
  next
    case False
    with "1.prems"(2) ok show ?thesis by auto
  qed
qed

subsection \<open>Failure and success of the transfer\<close>




subsection \<open>The length of the result and the range of the loop\<close>

text \<open>
  Counterexample to C4 as stated. With an old grid of 3 points and a new grid of 4 points
  the transfer returns 3 prices: the length of the result is not the length of the new
  grid, and the loop never reaches the last index of the new grid.
\<close>

theorem transfer_length_counterexample:
  "map_sum id length (movePricesBeforeExDiv naturalSpline [0, 5, 12] [2, 5, 50, 70] [1, 10, 100])
     = Inr 3
   \<and> length [2, 5, 50, 70 :: real] = 4"
proof -
  obtain out where
    run: "movePricesBeforeExDiv naturalSpline [0, 5, 12] [2, 5, 50, 70] [1, 10, 100] = Inr out"
    using movePricesBeforeExDiv_succeeds[of "[1, 10, 100]" "[0, 5, 12]" "[2, 5, 50, 70]" naturalSpline]
    by auto
  have "length out = 3"
    using evaluateOnNewGrid_Inr[OF movePricesBeforeExDiv_Inr[OF run]] by simp
  with run show ?thesis by simp
qed

text \<open>
  C4, amended. The transfer updates the price array in place: when it returns, the result
  has the length of the price array it was given, which like the new grid is at least as
  long as the old grid; the loop assigns exactly the indices below the length of the old
  grid, and every element from that index on is left as it was. When the three arrays
  have one length, as in \<^verbatim>\<open>executeIntermediateStep\<close>, the result has the length of the
  new grid and every element of it is assigned.
\<close>

theorem transfer_length_and_range:
  assumes "movePricesBeforeExDiv ev prices newGrid oldGrid = Inr out"
  shows "length out = length prices \<and> length oldGrid \<le> length prices
         \<and> length oldGrid \<le> length newGrid
         \<and> (\<forall>j. j < length oldGrid \<longrightarrow>
                out ! j = ev (priceSplineOf prices oldGrid)
                             (ln (newGrid ! jGrid newGrid oldGrid (length oldGrid) j)))
         \<and> (\<forall>j. length oldGrid \<le> j \<longrightarrow> out ! j = prices ! j)
         \<and> (length prices = length newGrid \<and> length oldGrid = length newGrid \<longrightarrow>
                length out = length newGrid \<and>
                (\<forall>j. j < length newGrid \<longrightarrow>
                   out ! j = ev (priceSplineOf prices oldGrid)
                                (ln (newGrid ! jGrid newGrid oldGrid (length oldGrid) j))))"
proof -
  note run = movePricesBeforeExDiv_Inr[OF assms]
  note vals = evaluateOnNewGrid_Inr[OF run]
  have ng: "length oldGrid \<le> length newGrid"
  proof (cases "0 < length oldGrid")
    case True
    from evaluateOnNewGrid_Inr_bounds[OF run True] show ?thesis .
  next
    case False
    then show ?thesis by simp
  qed
  from vals ng movePricesBeforeExDiv_Inr_length[OF assms] show ?thesis
    by auto
qed

theorem transfer_length_and_range_witness:
  "\<exists>out. movePricesBeforeExDiv naturalSpline [0, 5, 12, 20] [2, 5, 50, 70, 80] [1, 10, 100] = Inr out
     \<and> length out = 4 \<and> out ! 3 = 20
     \<and> out ! 0 = naturalSpline \<lparr>knots = [0, ln 10, ln 100], ordinates = [0, 5, 12]\<rparr> (ln 2)"
proof -
  obtain out where
    run: "movePricesBeforeExDiv naturalSpline [0, 5, 12, 20] [2, 5, 50, 70, 80] [1, 10, 100] = Inr out"
    using movePricesBeforeExDiv_succeeds[of "[1, 10, 100]" "[0, 5, 12, 20]" "[2, 5, 50, 70, 80]" naturalSpline]
    by auto
  have sp: "priceSplineOf [0, 5, 12, 20] [1, 10, 100]
              = \<lparr>knots = [0, ln 10, ln 100], ordinates = [0, 5, 12]\<rparr>"
    by (simp add: priceSplineOf_def positiveIndices_def upt_conv_Cons)
  from transfer_length_and_range[OF run] have
    "length out = 4" and "out ! 3 = 20" and
    "out ! 0 = naturalSpline \<lparr>knots = [0, ln 10, ln 100], ordinates = [0, 5, 12]\<rparr> (ln 2)"
    by (simp_all add: sp jGrid_def)
  with run show ?thesis by simp
qed

subsection \<open>The natural spline passes through its points\<close>

lemma locate_knot:
  "sorted_wrt (<) xs \<Longrightarrow> Suc i < length xs \<Longrightarrow> locate xs (xs ! i) = i"
proof (induction xs "xs ! i" arbitrary: i rule: locate.induct)
  case (1 a b c xs)
  show ?case
  proof (cases i)
    case 0
    with "1.prems" show ?thesis by simp
  next
    case (Suc k)
    have nb: "\<not> (b # c # xs) ! k < b"
    proof (cases k)
      case 0 then show ?thesis by simp
    next
      case (Suc m)
      with "1.prems" \<open>i = Suc k\<close> have "(c # xs) ! m \<in> set (c # xs)"
        by (intro nth_mem) simp
      with "1.prems" have "b < (c # xs) ! m" by auto
      with Suc show ?thesis by simp
    qed
    have "locate (b # c # xs) ((b # c # xs) ! k) = k"
      using "1.hyps"[of k] nb "1.prems" Suc by simp
    with nb Suc show ?thesis by simp
  qed
qed simp_all

lemma locate_last:
  "sorted_wrt (<) xs \<Longrightarrow> 2 \<le> length xs \<Longrightarrow> locate xs (last xs) = length xs - 2"
proof (induction xs "last xs" rule: locate.induct)
  case (1 a b c xs)
  have "b < last (c # xs)" using "1.prems" by auto
  then have nb: "\<not> last (a # b # c # xs) < b" by simp
  have "locate (b # c # xs) (last (b # c # xs)) = length (b # c # xs) - 2"
    using "1.hyps" nb "1.prems" by simp
  with nb show ?case by simp
qed simp_all

lemma naturalSpline_interpolating: "interpolating naturalSpline"
  unfolding interpolating_def
proof (intro allI impI)
  fix sp :: CubicSpline and i
  assume a: "sorted_wrt (<) (knots sp) \<and> 2 \<le> length (knots sp)
               \<and> length (ordinates sp) = length (knots sp) \<and> i < length (knots sp)"
  let ?xs = "knots sp"
  show "naturalSpline sp (?xs ! i) = ordinates sp ! i"
  proof (cases "Suc i < length ?xs")
    case True
    with a have loc: "locate ?xs (?xs ! i) = i" by (simp add: locate_knot)
    from a True have "?xs ! i < ?xs ! Suc i"
      by (simp add: sorted_wrt_iff_nth_less)
    then show ?thesis by (simp add: naturalSpline_def Let_def loc)
  next
    case False
    from a have two: "\<not> length ?xs < 2" by simp
    with False a have i: "i = length ?xs - 1" by auto
    from two have "?xs \<noteq> []" by auto
    then have li: "?xs ! i = last ?xs" using i by (simp add: last_conv_nth)
    have loc: "locate ?xs (?xs ! i) = length ?xs - 2"
      using a two by (simp add: li locate_last)
    have eq: "Suc (length ?xs - 2) = i" using i two by simp
    from a two i have "?xs ! (length ?xs - 2) < ?xs ! i"
      by (simp add: sorted_wrt_iff_nth_less)
    then show ?thesis by (simp add: naturalSpline_def Let_def loc eq)
  qed
qed

subsection \<open>Transfer onto the same grid\<close>

lemma positiveIndices_all:
  assumes "\<forall>g\<in>set grid. 0 < g"
  shows "positiveIndices grid 0 (length grid) = [0..<length grid]"
  unfolding positiveIndices_def using assms by (auto intro!: filter_True)

lemma knots_priceSplineOf_all:
  assumes "\<forall>g\<in>set grid. 0 < g"
  shows "knots (priceSplineOf prices grid) = map ln grid"
proof -
  have "map (\<lambda>i. ln (grid ! i)) [0..<length grid] = map ln (map (\<lambda>i. grid ! i) [0..<length grid])"
    by simp
  also have "\<dots> = map ln grid" by (simp only: map_nth)
  finally show ?thesis by (simp add: priceSplineOf_def positiveIndices_all[OF assms])
qed

lemma ordinates_priceSplineOf_all:
  assumes "\<forall>g\<in>set grid. 0 < g"
  shows "ordinates (priceSplineOf prices grid) = map (\<lambda>i. prices ! i) [0..<length grid]"
  by (simp add: priceSplineOf_def positiveIndices_all[OF assms])

lemma sorted_map_ln:
  fixes grid :: Array
  assumes "sorted_wrt (<) grid" and "\<forall>g\<in>set grid. 0 < g"
  shows "sorted_wrt (<) (map ln grid)"
  using assms
proof (induction grid)
  case Nil
  then show ?case by simp
next
  case (Cons a grid)
  have "ln a < ln x" if "x \<in> set grid" for x
  proof -
    from Cons.prems that have "0 < a" "0 < x" "a < x" by auto
    then show ?thesis by (simp add: ln_less_cancel_iff)
  qed
  with Cons show ?case by auto
qed

lemma jGrid_same_grid:
  assumes "sorted_wrt (<) grid" and "j < length grid" and "2 \<le> length grid"
  shows "jGrid grid grid (length grid) j = min j (length grid - 2)"
proof (cases "j < length grid - 2")
  case True
  with assms have "grid ! j < grid ! (length grid - 2)"
    by (simp add: sorted_wrt_iff_nth_less)
  with True show ?thesis by (simp add: jGrid_def)
next
  case False
  have "grid ! (length grid - 2) \<le> grid ! j"
  proof (cases "j = length grid - 2")
    case True then show ?thesis by simp
  next
    case ne: False
    with False assms have "grid ! (length grid - 2) < grid ! j"
      by (simp add: sorted_wrt_iff_nth_less)
    then show ?thesis by simp
  qed
  with False show ?thesis by (simp add: jGrid_def)
qed

lemma transfer_same_grid:
  assumes ev: "interpolating ev"
    and sorted: "sorted_wrt (<) grid" and pos: "\<forall>g\<in>set grid. 0 < g"
    and len: "length grid \<le> length prices" and two: "2 \<le> length grid"
  shows "movePricesBeforeExDiv ev prices grid grid =
           Inr (prices[length grid - 1 := prices ! (length grid - 2)])"
proof -
  let ?n = "length grid"
  let ?sp = "priceSplineOf prices grid"
  have all: "filter (\<lambda>g. 0 < g) grid = grid" using pos by (auto intro: filter_True)
  obtain out where run: "movePricesBeforeExDiv ev prices grid grid = Inr out"
    using movePricesBeforeExDiv_succeeds[OF len order_refl, of ev] two by (auto simp: all)
  note vals = evaluateOnNewGrid_Inr[OF movePricesBeforeExDiv_Inr[OF run]]
  have kn: "knots ?sp = map ln grid" by (rule knots_priceSplineOf_all[OF pos])
  have od: "ordinates ?sp = map (\<lambda>i. prices ! i) [0..<?n]"
    by (rule ordinates_priceSplineOf_all[OF pos])
  have at_knot: "ev ?sp (ln (grid ! k)) = prices ! k" if "k < ?n" for k
  proof -
    have "sorted_wrt (<) (knots ?sp) \<and> 2 \<le> length (knots ?sp)
            \<and> length (ordinates ?sp) = length (knots ?sp) \<and> k < length (knots ?sp)"
      using that two by (simp add: kn od sorted_map_ln[OF sorted pos])
    with ev have "ev ?sp (knots ?sp ! k) = ordinates ?sp ! k"
      unfolding interpolating_def by blast
    with that show ?thesis by (simp add: kn od)
  qed
  have below: "out ! j = prices ! min j (?n - 2)" if "j < ?n" for j
  proof -
    from vals that have "out ! j = ev ?sp (ln (grid ! jGrid grid grid ?n j))" by simp
    also have "\<dots> = ev ?sp (ln (grid ! min j (?n - 2)))"
      by (simp add: jGrid_same_grid[OF sorted that two])
    also have "\<dots> = prices ! min j (?n - 2)"
      using that by (intro at_knot) simp
    finally show ?thesis .
  qed
  have "out = prices[?n - 1 := prices ! (?n - 2)]"
  proof (rule nth_equalityI)
    show "length out = length (prices[?n - 1 := prices ! (?n - 2)])" using vals by simp
  next
    fix j assume "j < length out"
    with vals have jl: "j < length prices" by simp
    show "out ! j = prices[?n - 1 := prices ! (?n - 2)] ! j"
    proof (cases "j < ?n")
      case True
      show ?thesis
      proof (cases "j = ?n - 1")
        case True
        with two jl below[of j] show ?thesis by (simp add: min_def)
      next
        case False
        with True have "min j (?n - 2) = j" by simp
        with below[OF True] False show ?thesis by simp
      qed
    next
      case False
      with vals have "out ! j = prices ! j" by simp
      moreover from False two have "j \<noteq> ?n - 1" by simp
      ultimately show ?thesis by simp
    qed
  qed
  with run show ?thesis by simp
qed

text \<open>
  Counterexample to C3 as stated. On the grid 1, 10, 100 the prices 0, 5, 12 come back as
  0, 5, 5: the last price is replaced by the one before it, a difference of 7. On a grid
  of one point the transfer does not return prices at all.
\<close>

theorem roundtrip_counterexample:
  "movePricesBeforeExDiv naturalSpline [0, 5, 12] [1, 10, 100] [1, 10, 100] = Inr [0, 5, 5]
   \<and> \<bar>[0, 5, 5] ! 2 - [0, 5, 12] ! 2\<bar> = (7 :: real)
   \<and> movePricesBeforeExDiv naturalSpline [5] [1] [1] = Inl DegenerateGridError"
  using transfer_same_grid[OF naturalSpline_interpolating, of "[1, 10, 100]" "[0, 5, 12]"]
        movePricesBeforeExDiv_unfold[of "[1]" "[5]" naturalSpline "[1]"]
  by simp

text \<open>
  C3, amended. For a spline that passes through its points, a strictly increasing and
  strictly positive grid of at least 2 points and a price array at least as long, the
  transfer from the grid onto itself returns the prices unchanged at every index but the
  last index of the grid, where it returns the price of the index before: both the last
  and the last but one index evaluate the spline at the last but one grid point.
\<close>

theorem transfer_onto_same_grid:
  assumes "interpolating ev"
    and "sorted_wrt (<) grid" and "\<forall>g\<in>set grid. 0 < g"
    and "length grid \<le> length prices" and "2 \<le> length grid"
  shows "movePricesBeforeExDiv ev prices grid grid =
           Inr (prices[length grid - 1 := prices ! (length grid - 2)])"
  using assms by (rule transfer_same_grid)

theorem transfer_onto_same_grid_witness:
  "movePricesBeforeExDiv naturalSpline [1, 4, 9, 16] [1, 2, 3, 4] [1, 2, 3, 4] = Inr [1, 4, 9, 9]"
  using transfer_onto_same_grid[OF naturalSpline_interpolating, of "[1, 2, 3, 4]" "[1, 4, 9, 16]"]
  by simp

subsection \<open>The points at which the spline is evaluated\<close>

text \<open>
  Run with \<open>evaluationPoint\<close>, the transfer returns the arguments that it passes to any
  other evaluation function.
\<close>

lemma evaluation_points_are_arguments:
  assumes "movePricesBeforeExDiv ev prices newGrid oldGrid = Inr out"
    and "movePricesBeforeExDiv evaluationPoint prices newGrid oldGrid = Inr pts"
    and "j < length oldGrid"
  shows "out ! j = ev (priceSplineOf prices oldGrid) (pts ! j)"
  using evaluateOnNewGrid_Inr[OF movePricesBeforeExDiv_Inr[OF assms(1)]]
        evaluateOnNewGrid_Inr[OF movePricesBeforeExDiv_Inr[OF assms(2)]] assms(3)
  by (simp add: evaluationPoint_def)

text \<open>
  Counterexample to C9 as stated. The old grid 5, 10, 100 is positive throughout, so its
  first surviving point is 5 and its second-to-last point is 10. With the new grid
  2, 50, 60 the spline is evaluated at \<open>ln 2\<close>, below \<open>ln 5\<close>, and twice at
  \<open>ln 50\<close>, above \<open>ln 10\<close>.
\<close>

theorem evaluation_points_counterexample:
  "movePricesBeforeExDiv evaluationPoint [0, 5, 12] [2, 50, 60] [5, 10, 100]
     = Inr [ln 2, ln 50, ln 50]
   \<and> ln 2 < ln (5 :: real) \<and> ln (10 :: real) < ln 50"
proof -
  obtain pts where
    run: "movePricesBeforeExDiv evaluationPoint [0, 5, 12] [2, 50, 60] [5, 10, 100] = Inr pts"
    using movePricesBeforeExDiv_succeeds[of "[5, 10, 100]" "[0, 5, 12]" "[2, 50, 60]" evaluationPoint]
    by auto
  note vals = evaluateOnNewGrid_Inr[OF movePricesBeforeExDiv_Inr[OF run]]
  have "length pts = 3" using vals by simp
  moreover have "pts ! 0 = ln 2" using vals by (simp add: evaluationPoint_def jGrid_def)
  moreover have "pts ! 1 = ln 50" using vals by (simp add: evaluationPoint_def jGrid_def)
  moreover have "pts ! 2 = ln 50" using vals by (simp add: evaluationPoint_def jGrid_def)
  ultimately have "pts = [ln 2, ln 50, ln 50]" by (rule list3_eqI)
  with run show ?thesis by simp
qed

text \<open>
  C9, amended. At an index \<open>j\<close> of the loop whose new grid value is positive and below
  the second-to-last point of the old grid, the spline is evaluated at
  \<open>ln (newGrid[j])\<close>, strictly below the logarithm of that point. At every other index
  it is evaluated at \<open>ln (newGrid[size - 2])\<close>, \<open>size\<close> the length of the old grid:
  the clamp bounds the index, and the value of the new grid found there is not bounded by
  the old grid. No lower bound by the first surviving point of the old grid holds.
\<close>

theorem evaluation_points_bound:
  assumes "movePricesBeforeExDiv evaluationPoint prices newGrid oldGrid = Inr pts"
    and "j < length oldGrid"
  shows "(0 < newGrid ! j \<and> newGrid ! j < oldGrid ! (length oldGrid - 2) \<longrightarrow>
            pts ! j = ln (newGrid ! j) \<and> pts ! j < ln (oldGrid ! (length oldGrid - 2)))
         \<and> (oldGrid ! (length oldGrid - 2) \<le> newGrid ! j \<longrightarrow>
            pts ! j = ln (newGrid ! (length oldGrid - 2)))"
proof -
  from evaluateOnNewGrid_Inr[OF movePricesBeforeExDiv_Inr[OF assms(1)]] assms(2)
  have pt: "pts ! j = ln (newGrid ! jGrid newGrid oldGrid (length oldGrid) j)"
    by (simp add: evaluationPoint_def)
  show ?thesis
  proof (intro conjI impI)
    assume a: "0 < newGrid ! j \<and> newGrid ! j < oldGrid ! (length oldGrid - 2)"
    then show "pts ! j = ln (newGrid ! j)" using pt by (simp add: jGrid_def)
    with a show "pts ! j < ln (oldGrid ! (length oldGrid - 2))"
      by (simp add: ln_less_cancel_iff)
  next
    assume "oldGrid ! (length oldGrid - 2) \<le> newGrid ! j"
    then show "pts ! j = ln (newGrid ! (length oldGrid - 2))" using pt by (simp add: jGrid_def)
  qed
qed

theorem evaluation_points_bound_witness:
  "\<exists>pts. movePricesBeforeExDiv evaluationPoint [0, 5, 12] [2, 50, 60] [5, 10, 100] = Inr pts
     \<and> pts ! 0 = ln 2 \<and> pts ! 0 < ln 10 \<and> pts ! 1 = ln 50"
proof -
  obtain pts where
    run: "movePricesBeforeExDiv evaluationPoint [0, 5, 12] [2, 50, 60] [5, 10, 100] = Inr pts"
    using movePricesBeforeExDiv_succeeds[of "[5, 10, 100]" "[0, 5, 12]" "[2, 50, 60]" evaluationPoint]
    by auto
  from evaluation_points_bound[OF run, of 0] evaluation_points_bound[OF run, of 1]
  have "pts ! 0 = ln 2 \<and> pts ! 0 < ln 10 \<and> pts ! 1 = ln 50" by simp
  with run show ?thesis by blast
qed

subsection \<open>The constructor\<close>

lemma roundDouble_examples:
  "roundDouble (- 50) = - 50" "roundDouble 95 = 95" "roundDouble 150 = 150"
  "roundDouble 5 = 5" "roundDouble 2 = 2" "roundDouble 0 = 0"
  "roundDouble 10000000000000000 = 10000000000000000"
  "roundDouble 10000000000000001 = 10000000000000000"
  "roundDouble 10000000000000003 = 10000000000000004"
  "roundDouble 10000000000000004 = 10000000000000004"
  by (simp_all add: roundDouble_def ulp_def roundToEven_def binade.simps Let_def)

lemma addElements_examples:
  "addElements [150] = 150" "addElements [5] = 5"
  "addElements [10000000000000000, 1, 1] = 10000000000000000"
  "addElements [10000000000000000, 3] = 10000000000000004"
  by (simp_all add: addElements_def roundDouble_examples)

text \<open>
  Counterexample to C7 as stated. The sum of the dividends \<open>10^16, 1, 1\<close> equals the
  underlying \<open>10^16 + 2\<close>, yet the construction succeeds: each addition of 1 to
  \<open>10^16\<close> rounds back to \<open>10^16\<close>. The sum of the dividends \<open>10^16, 3\<close> is below the
  underlying \<open>10^16 + 4\<close>, yet the construction is refused: \<open>10^16 + 3\<close> rounds to
  \<open>10^16 + 4\<close>. In both cases the number of dividends is the number of dates.
\<close>

theorem constructor_rounding_counterexample:
  "map_sum id dividends_m
     (newDividendOption (storingBase exampleBase) (10 ^ 16 + 2) [10 ^ 16, 1, 1] [1 / 2, 1, 3 / 2])
     = Inr [10 ^ 16, 1, 1]
   \<and> sum_list [10 ^ 16, 1, 1] \<ge> (10 ^ 16 + 2 :: real)
   \<and> newDividendOption (storingBase exampleBase) (10 ^ 16 + 4) [10 ^ 16, 3] [1 / 2, 1]
     = Inl (ConfigurationError (DividendsExceedUnderlying (10 ^ 16 + 4) (10 ^ 16 + 4)))
   \<and> sum_list [10 ^ 16, 3] < (10 ^ 16 + 4 :: real)"
  by (simp add: newDividendOption_def storingBase_def addElements_examples roundDouble_examples
        MultiPeriodOption.defs DividendOption.defs)

text \<open>
  C7, amended. A failure of the constructor of the base class is the failure of the
  construction. When that constructor returns and has counted the dates, the
  construction fails with \<open>ConfigurationError\<close> if and only if the number of dividends
  differs from the number of dates or the sum of the dividends as \<^verbatim>\<open>addElements\<close>
  accumulates it in double arithmetic is at least the underlying; otherwise it returns
  the option with its dividends. With an underlying of 100 the dividends \<open>[150]\<close> are
  refused, and the dividends \<open>[5]\<close> with one date are accepted.
\<close>

theorem constructor_configuration_error:
  "(\<forall>e. newMultiPeriodOption (roundDouble (underlying - addElements dividends)) exdivdates
          = Inl e
        \<longrightarrow> newDividendOption newMultiPeriodOption underlying dividends exdivdates = Inl e)
   \<and> (\<forall>base. newMultiPeriodOption (roundDouble (underlying - addElements dividends)) exdivdates
             = Inr base \<and> dateNumber_m base = length exdivdates
        \<longrightarrow> ((\<exists>c. newDividendOption newMultiPeriodOption underlying dividends exdivdates
                     = Inl (ConfigurationError c))
              \<longleftrightarrow> (length dividends \<noteq> length exdivdates
                   \<or> addElements dividends \<ge> underlying))
            \<and> (length dividends = length exdivdates \<and> addElements dividends < underlying
                 \<longrightarrow> (\<exists>opt. newDividendOption newMultiPeriodOption underlying dividends exdivdates
                            = Inr opt \<and> dividends_m opt = dividends)))"
  by (auto simp: newDividendOption_def MultiPeriodOption.defs DividendOption.defs)

theorem constructor_configuration_error_witness:
  "(\<exists>c. newDividendOption (storingBase exampleBase) 100 [150] [1 / 2] = Inl (ConfigurationError c))
   \<and> (\<exists>opt. newDividendOption (storingBase exampleBase) 100 [5] [1 / 2] = Inr opt
          \<and> dividends_m opt = [5])"
  using constructor_configuration_error[of "storingBase exampleBase" 100 "[150]" "[1 / 2]"]
        constructor_configuration_error[of "storingBase exampleBase" 100 "[5]" "[1 / 2]"]
  by (simp add: storingBase_def addElements_examples roundDouble_examples)

subsection \<open>The step at a dividend\<close>

lemma rebuiltGrid_frame:
  "dates_m (rebuiltGrid E step this) = dates_m this"
  "dividends_m (rebuiltGrid E step this) = dividends_m this"
  "prices_m (rebuiltGrid E step this) = prices_m this"
  "controlPrices_m (rebuiltGrid E step this) = controlPrices_m this"
  by (simp_all add: rebuiltGrid_def initializeInitialCondition_def initializeGrid_def
        updateLimits_def setGridLimits_def Let_def)

lemma executeIntermediateStep_Inr:
  assumes "executeIntermediateStep E step this = Inr this'"
  shows "\<exists>p c. movePricesBeforeExDiv (spline E) (prices_m (rebuiltGrid E step this))
                 (grid_m (rebuiltGrid E step this)) (shiftedGrid E step this) = Inr p
             \<and> movePricesBeforeExDiv (spline E) (controlPrices_m (rebuiltGrid E step this))
                 (grid_m (rebuiltGrid E step this)) (shiftedGrid E step this) = Inr c
             \<and> this' = (rebuiltGrid E step this)
                  \<lparr>prices_m := stepConditionFor E
                       (initializeModel E (initializeOperator E
                          ((rebuiltGrid E step this)\<lparr>prices_m := p, controlPrices_m := c\<rparr>)))
                       p (dates_m this ! step),
                   controlPrices_m := c,
                   finiteDifferenceOperator_m := operatorFor E
                       ((rebuiltGrid E step this)\<lparr>prices_m := p, controlPrices_m := c\<rparr>),
                   model_m := modelFor E (initializeOperator E
                       ((rebuiltGrid E step this)\<lparr>prices_m := p, controlPrices_m := c\<rparr>)),
                   stepCondition_m := stepConditionFor E
                       (initializeModel E (initializeOperator E
                          ((rebuiltGrid E step this)\<lparr>prices_m := p, controlPrices_m := c\<rparr>)))\<rparr>"
  using assms
  by (auto simp: executeIntermediateStep_def Let_def initializeStepCondition_def
        initializeModel_def initializeOperator_def rebuiltGrid_frame(1)
        split: if_splits sum.splits)

lemma rebuiltGrid_limits:
  "center_m (rebuiltGrid E step this) = center_m (updateLimits E step this)"
  "sMin_m (rebuiltGrid E step this) = sMin_m (updateLimits E step this)"
  "sMax_m (rebuiltGrid E step this) = sMax_m (updateLimits E step this)"
  by (simp_all add: rebuiltGrid_def initializeInitialCondition_def initializeGrid_def)

lemma executeIntermediateStep_limits:
  assumes "executeIntermediateStep E step this = Inr this'"
  shows "center_m this' = center_m (updateLimits E step this)"
    and "sMin_m this' = sMin_m (updateLimits E step this)"
    and "sMax_m this' = sMax_m (updateLimits E step this)"
  using executeIntermediateStep_Inr[OF assms] by (auto simp: rebuiltGrid_limits)


lemma stepConditionFor_irrelevant:
  "rebuiltGrid (E\<lparr>stepConditionFor := sc\<rparr>) step this = rebuiltGrid E step this"
  "shiftedGrid (E\<lparr>stepConditionFor := sc\<rparr>) step this = shiftedGrid E step this"
  by (simp_all add: rebuiltGrid_def shiftedGrid_def updateLimits_def setGridLimits_def
        initializeInitialCondition_def initializeGrid_def Let_def)

subsection \<open>The step run on the example\<close>

text \<open>
  The dividend is 5 and the centre 95. The limits become 115/4 and 8000/23 around the
  centre 100; the old grid shifted by the dividend is 115/4, 100, 385 and the rebuilt
  grid 115/4, 100, 8000/23, so every point at which the spline is evaluated is one of its
  points.
\<close>

lemma interpolatingD:
  assumes "interpolating ev" and "sorted_wrt (<) xs" and "2 \<le> length xs"
    and "length ys = length xs" and "i < length xs"
  shows "ev \<lparr>knots = xs, ordinates = ys\<rparr> (xs ! i) = ys ! i"
  using assms unfolding interpolating_def
  by (metis CubicSpline.select_convs(1) CubicSpline.select_convs(2))

lemma example_transfer:
  assumes "length prices = 3"
  shows "movePricesBeforeExDiv naturalSpline prices [115 / 4, 100, 8000 / 23] [115 / 4, 100, 385]
         = Inr [prices ! 0, prices ! 1, prices ! 1]"
proof -
  let ?og = "[115 / 4, 100, 385] :: Array"
  let ?ng = "[115 / 4, 100, 8000 / 23] :: Array"
  let ?xs = "[ln (115 / 4), ln 100, ln 385] :: Array"
  let ?ys = "[prices ! 0, prices ! 1, prices ! 2]"
  obtain out where run: "movePricesBeforeExDiv naturalSpline prices ?ng ?og = Inr out"
    using movePricesBeforeExDiv_succeeds[of ?og prices ?ng naturalSpline] assms by auto
  note vals = evaluateOnNewGrid_Inr[OF movePricesBeforeExDiv_Inr[OF run]]
  have sp: "priceSplineOf prices ?og = \<lparr>knots = ?xs, ordinates = ?ys\<rparr>"
    by (simp add: priceSplineOf_def positiveIndices_def upt_conv_Cons numeral_2_eq_2)
  have knot: "naturalSpline \<lparr>knots = ?xs, ordinates = ?ys\<rparr> (?xs ! i) = ?ys ! i" if "i < 3" for i
    using that by (intro interpolatingD[OF naturalSpline_interpolating]) simp_all
  have "length out = 3" using vals assms by simp
  moreover have "out ! 0 = prices ! 0"
    using vals knot[of 0] by (simp add: sp jGrid_def)
  moreover have "out ! 1 = prices ! 1"
    using vals knot[of 1] by (simp add: sp jGrid_def)
  moreover have "out ! 2 = prices ! 1"
    using vals knot[of 1] by (simp add: sp jGrid_def)
  ultimately have "out = [prices ! 0, prices ! 1, prices ! 1]" by (rule list3_eqI)
  with run show ?thesis by simp
qed

lemma example_updateLimits:
  "updateLimits exampleEngine 0 exampleOption =
     exampleOption\<lparr>center_m := 100, sMin_m := 115 / 4, sMax_m := 8000 / 23\<rparr>"
  by (simp add: updateLimits_def setGridLimits_def exampleEngine_def exampleOption_def Let_def)

lemma example_shiftedGrid:
  "shiftedGrid exampleEngine 0 exampleOption = [115 / 4, 100, 385]"
  by (simp add: shiftedGrid_def example_updateLimits) (simp add: exampleOption_def)

lemma example_rebuiltGrid:
  "rebuiltGrid exampleEngine 0 exampleOption =
     exampleOption\<lparr>center_m := 100, sMin_m := 115 / 4, sMax_m := 8000 / 23,
                    grid_m := [115 / 4, 100, 8000 / 23],
                    initialPrices_m := [0, 0, 5700 / 23]\<rparr>"
  by (simp add: rebuiltGrid_def example_updateLimits initializeGrid_def
        initializeInitialCondition_def) (simp add: exampleEngine_def exampleOption_def)

lemma example_step:
  "executeIntermediateStep exampleEngine 0 exampleOption =
     Inr (exampleOption
           \<lparr>center_m := 100, sMin_m := 115 / 4, sMax_m := 8000 / 23,
            grid_m := [115 / 4, 100, 8000 / 23],
            initialPrices_m := [0, 0, 5700 / 23],
            prices_m := [0, 3, 5700 / 23],
            controlPrices_m := [0, 2, 2],
            finiteDifferenceOperator_m :=
              ([115 / 4, 100, 8000 / 23], [115 / 4, 100, 8000 / 23], [115 / 4, 100, 8000 / 23]),
            model_m :=
              ([115 / 4, 100, 8000 / 23], [115 / 4, 100, 8000 / 23], [115 / 4, 100, 8000 / 23]),
            stepCondition_m := (\<lambda>a t. map2 max a [0, 0, 5700 / 23])\<rparr>)"
proof -
  have vals: "prices_m exampleOption = [0, 3, 280]"
    "controlPrices_m exampleOption = [0, 2, 280]"
    "dividends_m exampleOption = [5]" "dates_m exampleOption = [1 / 2]"
    "spline exampleEngine = naturalSpline"
    by (simp_all add: exampleOption_def exampleEngine_def)
  show ?thesis
    by (simp add: executeIntermediateStep_def Let_def example_shiftedGrid example_rebuiltGrid
          vals example_transfer initializeStepCondition_def initializeModel_def
          initializeOperator_def)
       (simp add: exampleEngine_def exampleOption_def)
qed

subsection \<open>Limits and centre after the step\<close>




text \<open>
  C6. After the step at event \<open>step\<close> the centre is the centre of before plus
  \<open>dividends[step]\<close>; with the single dividend 5 it is the old centre plus 5. That
  \<^verbatim>\<open>setGridLimits\<close> stores the centre it is given is modelled from the spec.
\<close>

theorem center_after_dividend:
  assumes "executeIntermediateStep E step this = Inr this'"
  shows "center_m this' = center_m this + dividends_m this ! step"
  using executeIntermediateStep_limits(1)[OF assms]
  by (simp add: updateLimits_def Let_def setGridLimits_def)

theorem center_after_dividend_witness:
  "\<exists>this'. executeIntermediateStep exampleEngine 0 exampleOption = Inr this'
     \<and> dividends_m exampleOption = [5] \<and> center_m this' = center_m exampleOption + 5"
proof -
  obtain this' where run: "executeIntermediateStep exampleEngine 0 exampleOption = Inr this'"
    using example_step by blast
  from center_after_dividend[OF run]
  have "dividends_m exampleOption = [5] \<and> center_m this' = center_m exampleOption + 5"
    by (simp add: exampleOption_def)
  with run show ?thesis by blast
qed

subsection \<open>The step condition\<close>

text \<open>
  C8. When the step returns, the control prices are exactly those that the transfer of
  the control array returned, the primary prices are the step condition applied to those
  that the transfer of the primary array returned, and the control prices are the same
  whatever step condition the engine builds: the step condition is applied to the primary
  array only.
\<close>

theorem step_condition_on_primary_only:
  assumes "executeIntermediateStep E step this = Inr this'"
  shows "movePricesBeforeExDiv (spline E) (controlPrices_m (rebuiltGrid E step this))
           (grid_m (rebuiltGrid E step this)) (shiftedGrid E step this)
           = Inr (controlPrices_m this')
         \<and> (\<exists>p. movePricesBeforeExDiv (spline E) (prices_m (rebuiltGrid E step this))
                   (grid_m (rebuiltGrid E step this)) (shiftedGrid E step this) = Inr p
                 \<and> prices_m this' = stepCondition_m this' p (dates_m this ! step))
         \<and> (\<forall>sc. map_sum id controlPrices_m
                    (executeIntermediateStep (E\<lparr>stepConditionFor := sc\<rparr>) step this)
                  = Inr (controlPrices_m this'))"
proof -
  from executeIntermediateStep_Inr[OF assms] obtain p c where
    p: "movePricesBeforeExDiv (spline E) (prices_m (rebuiltGrid E step this))
          (grid_m (rebuiltGrid E step this)) (shiftedGrid E step this) = Inr p" and
    c: "movePricesBeforeExDiv (spline E) (controlPrices_m (rebuiltGrid E step this))
          (grid_m (rebuiltGrid E step this)) (shiftedGrid E step this) = Inr c" and
    this': "prices_m this' = stepCondition_m this' p (dates_m this ! step)"
           "controlPrices_m this' = c"
    by auto
  have range: "\<not> (length (dividends_m this) \<le> step \<or> length (dates_m this) \<le> step)"
    using assms by (auto simp: executeIntermediateStep_def)
  have "map_sum id controlPrices_m (executeIntermediateStep (E\<lparr>stepConditionFor := sc\<rparr>) step this)
          = Inr c" for sc
    using range p c
    by (simp add: executeIntermediateStep_def Let_def stepConditionFor_irrelevant
          initializeStepCondition_def initializeModel_def initializeOperator_def)
  with p c this' show ?thesis by simp
qed

theorem step_condition_on_primary_only_witness:
  "\<exists>this'. executeIntermediateStep exampleEngine 0 exampleOption = Inr this'
     \<and> movePricesBeforeExDiv naturalSpline [0, 2, 280] [115 / 4, 100, 8000 / 23] [115 / 4, 100, 385]
         = Inr (controlPrices_m this')
     \<and> controlPrices_m this' = [0, 2, 2] \<and> prices_m this' = [0, 3, 5700 / 23]"
proof -
  obtain this' where run: "executeIntermediateStep exampleEngine 0 exampleOption = Inr this'"
    using example_step by blast
  from step_condition_on_primary_only[OF run]
  have "movePricesBeforeExDiv naturalSpline [0, 2, 280] [115 / 4, 100, 8000 / 23] [115 / 4, 100, 385]
         = Inr (controlPrices_m this')"
    by (simp add: example_rebuiltGrid example_shiftedGrid)
       (simp add: exampleEngine_def exampleOption_def)
  moreover from run have "controlPrices_m this' = [0, 2, 2] \<and> prices_m this' = [0, 3, 5700 / 23]"
    by (auto simp: example_step)
  ultimately show ?thesis using run by blast
qed

subsection \<open>The transfer writes the price array only\<close>

text \<open>
  For arrays at addresses other than that of the price array, the transfer in the store
  is the transfer on the contents, stored at the address of the price array.
\<close>

lemma stored_update:
  "stored (st(p := a)) p r = stored st p r"
  by (cases r) (simp_all add: stored_def)

lemma evaluateOnNewGridRef_eq:
  assumes "p \<noteq> ng" and "p \<noteq> og"
  shows "evaluateOnNewGridRef ev sp p ng og n j st =
           stored st p (evaluateOnNewGrid ev sp (st ng) (st og) n j (st p))"
  using assms
proof (induction ev sp p ng og n j st rule: evaluateOnNewGridRef.induct)
  case (1 ev sp p ng og n j st)
  show ?case
  proof (cases "j < n")
    case False
    then show ?thesis
      by (subst evaluateOnNewGridRef.simps, subst evaluateOnNewGrid.simps)
         (simp add: stored_def)
  next
    case True
    show ?thesis
    proof (cases "n < 2 \<or> length (st og) \<le> n - 2 \<or> length (st ng) \<le> j
            \<or> length (st ng) \<le> jGrid (st ng) (st og) n j \<or> length (st p) \<le> j")
      case bad: True
      with True show ?thesis
        by (subst evaluateOnNewGridRef.simps, subst evaluateOnNewGrid.simps)
           (simp add: stored_def)
    next
      case ok: False
      let ?v = "ev sp (ln (st ng ! jGrid (st ng) (st og) n j))"
      let ?st = "st(p := (st p)[j := ?v])"
      from "1.prems" have same: "?st ng = st ng" "?st og = st og" "?st p = (st p)[j := ?v]"
        by simp_all
      have "evaluateOnNewGridRef ev sp p ng og n j st
              = evaluateOnNewGridRef ev sp p ng og n (Suc j) ?st"
        using True ok by (subst evaluateOnNewGridRef.simps) simp
      also have "\<dots> = stored ?st p (evaluateOnNewGrid ev sp (?st ng) (?st og) n (Suc j) (?st p))"
        using "1.IH"[OF True ok "1.prems"] .
      also have "\<dots> = stored st p (evaluateOnNewGrid ev sp (st ng) (st og) n (Suc j) ((st p)[j := ?v]))"
        unfolding same by (rule stored_update)
      also have "evaluateOnNewGrid ev sp (st ng) (st og) n (Suc j) ((st p)[j := ?v])
                   = evaluateOnNewGrid ev sp (st ng) (st og) n j (st p)"
        using True ok by (subst (2) evaluateOnNewGrid.simps) simp
      finally show ?thesis .
    qed
  qed
qed

lemma movePricesBeforeExDivRef_eq:
  assumes "p \<noteq> ng" and "p \<noteq> og"
  shows "movePricesBeforeExDivRef ev p ng og st =
           stored st p (movePricesBeforeExDiv ev (st p) (st ng) (st og))"
  by (simp add: movePricesBeforeExDivRef_def movePricesBeforeExDiv_def Let_def
        evaluateOnNewGridRef_eq[OF assms] stored_def split: sum.splits prod.splits)

text \<open>
  C10. In \<^verbatim>\<open>executeIntermediateStep\<close> the primary prices, the control prices, the grid
  and the local copy of the old grid are four different arrays. For such arguments a
  call of the transfer changes the store at the address of its price array only, so both
  grids are unchanged by it; and when the control array is transferred after the primary
  array, each of the two results is the transfer of its array against the same pair of
  grids, the one of before the first call.
\<close>

theorem transfer_writes_prices_only:
  assumes "pricesRef \<noteq> newGridRef" and "pricesRef \<noteq> oldGridRef"
    and "controlRef \<noteq> newGridRef" and "controlRef \<noteq> oldGridRef"
    and "controlRef \<noteq> pricesRef"
    and "movePricesBeforeExDivRef ev pricesRef newGridRef oldGridRef st = Inr st1"
    and "movePricesBeforeExDivRef ev controlRef newGridRef oldGridRef st1 = Inr st2"
  shows "(\<forall>a. a \<noteq> pricesRef \<longrightarrow> st1 a = st a)
         \<and> (\<forall>a. a \<noteq> controlRef \<longrightarrow> st2 a = st1 a)
         \<and> st1 newGridRef = st newGridRef \<and> st1 oldGridRef = st oldGridRef
         \<and> st2 newGridRef = st newGridRef \<and> st2 oldGridRef = st oldGridRef
         \<and> movePricesBeforeExDiv ev (st pricesRef) (st newGridRef) (st oldGridRef)
             = Inr (st2 pricesRef)
         \<and> movePricesBeforeExDiv ev (st controlRef) (st newGridRef) (st oldGridRef)
             = Inr (st2 controlRef)"
proof -
  from assms(6) obtain p where
    p: "movePricesBeforeExDiv ev (st pricesRef) (st newGridRef) (st oldGridRef) = Inr p"
    and st1: "st1 = st(pricesRef := p)"
    by (auto simp: movePricesBeforeExDivRef_eq[OF assms(1,2)] stored_def split: sum.splits)
  have frame: "st1 newGridRef = st newGridRef" "st1 oldGridRef = st oldGridRef"
    "st1 controlRef = st controlRef"
    using assms(1-5) by (simp_all add: st1)
  from assms(7) obtain c where
    c: "movePricesBeforeExDiv ev (st1 controlRef) (st1 newGridRef) (st1 oldGridRef) = Inr c"
    and st2: "st2 = st1(controlRef := c)"
    by (auto simp: movePricesBeforeExDivRef_eq[OF assms(3,4)] stored_def split: sum.splits)
  from p c frame assms(1-5) show ?thesis
    by (simp add: st1 st2)
qed

theorem transfer_writes_prices_only_witness:
  "\<exists>st1 st2. movePricesBeforeExDivRef naturalSpline 0 2 3 exampleStore = Inr st1
     \<and> movePricesBeforeExDivRef naturalSpline 1 2 3 st1 = Inr st2
     \<and> st2 2 = [2, 50, 60] \<and> st2 3 = [1, 10, 100]
     \<and> movePricesBeforeExDiv naturalSpline [0, 5, 12] [2, 50, 60] [1, 10, 100] = Inr (st2 0)
     \<and> movePricesBeforeExDiv naturalSpline [0, 4, 11] [2, 50, 60] [1, 10, 100] = Inr (st2 1)"
proof -
  obtain p where
    "movePricesBeforeExDiv naturalSpline [0, 5, 12] [2, 50, 60] [1, 10, 100] = Inr p"
    using movePricesBeforeExDiv_succeeds[of "[1, 10, 100]" "[0, 5, 12]" "[2, 50, 60]" naturalSpline]
    by auto
  then obtain st1 where
    run1: "movePricesBeforeExDivRef naturalSpline 0 2 3 exampleStore = Inr st1"
    and st1: "st1 = exampleStore(0 := p)"
    by (simp add: movePricesBeforeExDivRef_eq stored_def exampleStore_def)
  obtain c where
    "movePricesBeforeExDiv naturalSpline [0, 4, 11] [2, 50, 60] [1, 10, 100] = Inr c"
    using movePricesBeforeExDiv_succeeds[of "[1, 10, 100]" "[0, 4, 11]" "[2, 50, 60]" naturalSpline]
    by auto
  then obtain st2 where run2: "movePricesBeforeExDivRef naturalSpline 1 2 3 st1 = Inr st2"
    by (simp add: movePricesBeforeExDivRef_eq stored_def st1 exampleStore_def)
  from transfer_writes_prices_only[OF _ _ _ _ _ run1 run2]
  have "st2 2 = [2, 50, 60] \<and> st2 3 = [1, 10, 100]
     \<and> movePricesBeforeExDiv naturalSpline [0, 5, 12] [2, 50, 60] [1, 10, 100] = Inr (st2 0)
     \<and> movePricesBeforeExDiv naturalSpline [0, 4, 11] [2, 50, 60] [1, 10, 100] = Inr (st2 1)"
    by (simp add: exampleStore_def)
  with run1 run2 show ?thesis by blast
qed

end
